theory Spec2Isabelle
  imports Main
begin

section \<open>Python values\<close>

subsection \<open>Exceptions\<close>

text \<open>
  The exception classes the sources raise, catch or can receive from the libraries they
  call. \<open>PyodbcError\<close> is \<^verbatim>\<open>pyodbc.Error\<close> with its subclasses, \<open>WebDriverException\<close>
  is selenium's base class, \<open>TimeoutException\<close> its subclass raised by
  \<^verbatim>\<open>WebDriverWait.until\<close>. \<open>KeyboardInterrupt\<close> is the one class here that does not
  derive from \<^verbatim>\<open>Exception\<close>.
\<close>

datatype exn =
    IndexError
  | AttributeError
  | KeyError
  | ValueError
  | OSError
  | PyodbcError
  | WebDriverException
  | TimeoutException
  | OtherException
  | KeyboardInterrupt

text \<open>\<^verbatim>\<open>except Exception\<close> catches every class but \<open>KeyboardInterrupt\<close>.\<close>

definition is_Exception :: "exn \<Rightarrow> bool" where
  "is_Exception e = (e \<noteq> KeyboardInterrupt)"

text \<open>\<^verbatim>\<open>except pyodbc.Error\<close>.\<close>

definition is_pyodbc_Error :: "exn \<Rightarrow> bool" where
  "is_pyodbc_Error e = (e = PyodbcError)"

text \<open>Sequencing of two computations that may raise: the first exception wins.\<close>

fun seq :: "exn + 'a \<Rightarrow> ('a \<Rightarrow> exn + 'b) \<Rightarrow> exn + 'b" where
  "seq (Inl e) f = Inl e"
| "seq (Inr x) f = f x"

subsection \<open>Strings\<close>

text \<open>
  A Python \<^verbatim>\<open>str\<close> is a sequence of Unicode code points, here a list of naturals.
  \<^verbatim>\<open>str.strip\<close>, \<^verbatim>\<open>str.isdigit\<close> and \<^verbatim>\<open>int\<close> read the interpreter's Unicode
  character database; the three columns of it that they use are a parameter:
  \<^item> \<open>isspace\<close>: the code point is whitespace (what \<^verbatim>\<open>strip()\<close> removes);
  \<^item> \<open>isdigit\<close>: its Numeric_Type is Digit or Decimal (what \<^verbatim>\<open>isdigit()\<close> tests);
  \<^item> \<open>decimal\<close>: its value as a decimal digit, for the code points of Numeric_Type
    Decimal (what \<^verbatim>\<open>int\<close> accepts as a digit).
\<close>

type_synonym pystr = "nat list"

record ucd =
  isspace :: "nat \<Rightarrow> bool"
  isdigit :: "nat \<Rightarrow> bool"
  decimal :: "nat \<Rightarrow> nat option"

text \<open>
  The rows of the database for the code points below 256 (Basic Latin and Latin-1
  Supplement), as CPython has them: whitespace is U+0009..U+000D, U+001C..U+0020, U+0085
  and U+00A0; the decimal digits are U+0030..U+0039; the superscripts U+00B2, U+00B3 and
  U+00B9 have Numeric_Type Digit and are no decimal digits. Above 255 this table answers
  no, so it is used below only on strings of code points it describes.
\<close>

definition latin1 :: ucd where
  "latin1 =
     \<lparr> isspace = (\<lambda>c. (9 \<le> c \<and> c \<le> 13) \<or> (28 \<le> c \<and> c \<le> 32) \<or> c = 133 \<or> c = 160),
       isdigit = (\<lambda>c. (48 \<le> c \<and> c \<le> 57) \<or> c = 178 \<or> c = 179 \<or> c = 185),
       decimal = (\<lambda>c. if 48 \<le> c \<and> c \<le> 57 then Some (c - 48) else None) \<rparr>"

text \<open>\<^verbatim>\<open>s.strip()\<close>: leading and trailing whitespace removed.\<close>

definition strip :: "ucd \<Rightarrow> pystr \<Rightarrow> pystr" where
  "strip U s = rev (dropWhile (isspace U) (rev (dropWhile (isspace U) s)))"

text \<open>\<^verbatim>\<open>s.isdigit()\<close>: at least one character, and every character a digit.\<close>

definition str_isdigit :: "ucd \<Rightarrow> pystr \<Rightarrow> bool" where
  "str_isdigit U s = (s \<noteq> [] \<and> list_all (isdigit U) s)"

text \<open>
  \<^verbatim>\<open>int(s)\<close> on a string that passed \<^verbatim>\<open>isdigit()\<close>, the only strings the source
  converts: such a string has no sign, whitespace or underscore, and the conversion
  succeeds exactly when every character is a decimal digit. (The interpreter's limit on
  the number of digits of a conversion, a setting of Python 3.11 and later, is not
  modelled.)
\<close>

fun digits_value :: "ucd \<Rightarrow> int \<Rightarrow> pystr \<Rightarrow> exn + int" where
  "digits_value U acc [] = Inr acc"
| "digits_value U acc (c # cs) =
     (case decimal U c of
        None \<Rightarrow> Inl ValueError
      | Some d \<Rightarrow> digits_value U (10 * acc + int d) cs)"

definition py_int :: "ucd \<Rightarrow> pystr \<Rightarrow> exn + int" where
  "py_int U s = (if s = [] then Inl ValueError else digits_value U 0 s)"

subsection \<open>Logging\<close>

text \<open>
  A log record is its level, the message as the source writes it (the f-string with its
  placeholders) and the values of the placeholders. Logging is modelled in
  \<open>parse_crypto_data\<close> and in \<open>main\<close>, whose outcome the log is; in the other functions
  it changes neither the control flow nor the stored data and is left out.
\<close>

datatype level = INFO | WARNING | ERROR

datatype log_arg = ArgInt int | ArgExn exn

type_synonym log_record = "level \<times> string \<times> log_arg list"

section \<open>scraper.py: the record extractor\<close>

text \<open>
  The part of a BeautifulSoup document that \<open>parse_crypto_data\<close> reads: the first
  \<^verbatim>\<open>table\<close> of class \<^verbatim>\<open>cmc-table\<close>, if there is one, as the list of its \<^verbatim>\<open>tr\<close>
  elements, each the list of its \<^verbatim>\<open>td\<close> elements. A \<^verbatim>\<open>td\<close> is its \<^verbatim>\<open>.text\<close>.
  BeautifulSoup answers \<^verbatim>\<open>.text\<close> with a string for every element; \<open>Broken e\<close> is a
  cell whose field access raises \<open>e\<close>, the case the source's \<^verbatim>\<open>try\<close> is written for.
\<close>

datatype cell = Td pystr | Broken exn

type_synonym row = "cell list"

type_synonym soup = "row list option"

text \<open>The dictionary built for one row, and the keys of the source in their order.\<close>

type_synonym crypto = "string \<rightharpoonup> pystr"

text \<open>\<^verbatim>\<open>cols[i].text.strip()\<close>.\<close>

definition field :: "ucd \<Rightarrow> row \<Rightarrow> nat \<Rightarrow> exn + pystr" where
  "field U cols i =
     (if i < length cols then
        (case cols ! i of Td s \<Rightarrow> Inr (strip U s) | Broken e \<Rightarrow> Inl e)
      else Inl IndexError)"

text \<open>The dictionary display of lines 122 to 132: nine values, evaluated in order.\<close>

definition crypto_info :: "ucd \<Rightarrow> row \<Rightarrow> exn + crypto" where
  "crypto_info U cols =
     seq (field U cols 1) (\<lambda>rank.
     seq (field U cols 2) (\<lambda>name.
     seq (field U cols 3) (\<lambda>price.
     seq (field U cols 4) (\<lambda>h1.
     seq (field U cols 5) (\<lambda>h24.
     seq (field U cols 6) (\<lambda>d7.
     seq (field U cols 7) (\<lambda>cap.
     seq (field U cols 8) (\<lambda>vol.
     seq (field U cols 9) (\<lambda>supply.
       Inr [''rank'' \<mapsto> rank, ''name'' \<mapsto> name, ''price'' \<mapsto> price,
            ''1h_change'' \<mapsto> h1, ''24h_change'' \<mapsto> h24, ''7d_change'' \<mapsto> d7,
            ''market_cap'' \<mapsto> cap, ''24h_volume'' \<mapsto> vol,
            ''circulating_supply'' \<mapsto> supply])))))))))"

text \<open>
  The loop over \<^verbatim>\<open>rows[1:]\<close>, with the list built so far and the log. A row of fewer
  than 10 cells is passed over; \<^verbatim>\<open>IndexError\<close> and \<^verbatim>\<open>AttributeError\<close> are caught,
  logged as a warning, and the loop continues; any other exception leaves the function.
\<close>

fun parse_rows ::
  "ucd \<Rightarrow> row list \<Rightarrow> crypto list \<Rightarrow> log_record list \<Rightarrow> (exn + crypto list) \<times> log_record list"
where
  "parse_rows U [] crypto_data lg = (Inr crypto_data, lg)"
| "parse_rows U (cols # rows) crypto_data lg =
     (if 10 \<le> length cols then
        (case crypto_info U cols of
           Inr info \<Rightarrow> parse_rows U rows (crypto_data @ [info]) lg
         | Inl e \<Rightarrow>
             if e = IndexError \<or> e = AttributeError
             then parse_rows U rows crypto_data (lg @ [(WARNING, ''Error parsing row: {e}'', [ArgExn e])])
             else (Inl e, lg))
      else parse_rows U rows crypto_data lg)"

definition parse_crypto_data ::
  "ucd \<Rightarrow> soup \<Rightarrow> log_record list \<Rightarrow> (exn + crypto list) \<times> log_record list"
where
  "parse_crypto_data U soup lg =
     (case soup of
        None \<Rightarrow> (Inr [], lg @ [(ERROR, ''Could not find cryptocurrency table'', [])])
      | Some rows \<Rightarrow>
          parse_rows U (drop 1 rows) []
            (lg @ [(INFO, ''Found {len(rows)-1} cryptocurrency rows (excluding header)'',
                    [ArgInt (int (length rows) - 1)])]))"

section \<open>The environment of a run\<close>

text \<open>
  What the program reads from outside itself is a parameter of the model:
  \<^item> the Unicode tables of the interpreter;
  \<^item> the constants \<^verbatim>\<open>SCROLL_STEP\<close> and \<^verbatim>\<open>MAX_SCROLL_ATTEMPTS\<close> of \<^verbatim>\<open>config.py\<close>,
    which is not among the sources;
  \<^item> the browser: whether starting Chrome, loading the page, waiting for the table and
    quitting raise, the height the page reports at its \<open>k\<close>-th reading of
    \<^verbatim>\<open>document.body.scrollHeight\<close>, and the document of \<^verbatim>\<open>driver.page_source\<close>;
  \<^item> the database driver: for each call the program makes, the exception it raises, if
    any (\<open>db_fault\<close>);
  \<^item> the clocks: the value of the \<open>k\<close>-th call of \<^verbatim>\<open>datetime.now()\<close> and the server's
    \<^verbatim>\<open>GETDATE()\<close>, both in seconds;
  \<^item> whether \<open>setup_logging\<close> raises (an unknown \<^verbatim>\<open>LOG_LEVEL\<close>, a log file that
    cannot be opened).
\<close>

datatype db_op =
    Connect
  | Cursor
  | CreateTable
  | CommitSchema
  | InsertRow nat
  | CommitRows
  | Rollback
  | CursorClose
  | Close
  | Delete
  | CommitDelete

record env =
  unicode :: ucd
  SCROLL_STEP :: int
  MAX_SCROLL_ATTEMPTS :: int
  logging_setup :: "exn option"
  chrome_start :: "exn option"
  driver_get :: "exn option"
  wait_table :: "exn option"
  heights :: "nat \<Rightarrow> int"
  page_source :: "exn + soup"
  driver_quit :: "exn option"
  db_fault :: "db_op \<Rightarrow> exn option"
  clock :: "nat \<Rightarrow> int"
  getdate :: int

section \<open>scraper.py: the content loader\<close>

text \<open>
  \<^verbatim>\<open>range(start, stop, step)\<close> as the list of its values; a zero step raises
  \<^verbatim>\<open>ValueError\<close>.
\<close>

definition py_range :: "int \<Rightarrow> int \<Rightarrow> int \<Rightarrow> exn + int list" where
  "py_range start stop step =
     (if step = 0 then Inl ValueError
      else if 0 < step then
        Inr (map (\<lambda>k. start + int k * step) [0..<nat ((stop - start + step - 1) div step)])
      else
        Inr (map (\<lambda>k. start + int k * step) [0..<nat ((start - stop - step - 1) div (- step))]))"

text \<open>
  The variables of \<open>scroll_to_load_content\<close>, with what it has asked of the driver: the
  number of heights read so far and the positions passed to \<^verbatim>\<open>window.scrollTo\<close>.
  \<^verbatim>\<open>time.sleep\<close> only delays and is left out. The driver answers every script.
\<close>

record scroll_state =
  scroll_attempts :: int
  last_height :: int
  reads :: nat
  scrolls :: "int list"

text \<open>
  The \<^verbatim>\<open>while\<close> loop of lines 77 to 93. One pass scrolls through
  \<^verbatim>\<open>range(0, last_height, SCROLL_STEP)\<close>, reads the new height and either breaks, the
  height being unchanged, or counts the attempt.
\<close>

function scroll_loop :: "env \<Rightarrow> int \<Rightarrow> scroll_state \<Rightarrow> scroll_state \<times> exn option" where
  "scroll_loop E max_scrolls s =
     (if scroll_attempts s < max_scrolls then
        (case py_range 0 (last_height s) (SCROLL_STEP E) of
           Inl e \<Rightarrow> (s, Some e)
         | Inr steps \<Rightarrow>
             (if heights E (reads s) = last_height s
              then (s\<lparr>reads := Suc (reads s), scrolls := scrolls s @ steps\<rparr>, None)
              else scroll_loop E max_scrolls
                     \<lparr>scroll_attempts = scroll_attempts s + 1,
                      last_height = heights E (reads s),
                      reads = Suc (reads s),
                      scrolls = scrolls s @ steps\<rparr>))
      else (s, None))"
  by pat_completeness auto
termination
  by (relation "measure (\<lambda>(E, max_scrolls, s). nat (max_scrolls - scroll_attempts s))") auto

definition scroll_to_load_content :: "env \<Rightarrow> int \<Rightarrow> scroll_state \<times> exn option" where
  "scroll_to_load_content E max_scrolls =
     scroll_loop E max_scrolls
       \<lparr>scroll_attempts = 0, last_height = heights E 0, reads = 1, scrolls = []\<rparr>"

section \<open>scraper.py: the session and the scrape\<close>




section \<open>database.py\<close>

subsection \<open>The database\<close>

text \<open>
  A stored row has the ten columns the \<^verbatim>\<open>INSERT\<close> names (the identity column, which
  the server fills, is left out). A table is its column names, its indexes (name and
  column) and its rows. The database is what the catalogue holds under \<^verbatim>\<open>TABLE_NAME\<close>:
  nothing, a user table (\<^verbatim>\<open>xtype = 'U'\<close>), or an object of another kind.
\<close>

record stored_row =
  rank :: "int option"
  name :: pystr
  price :: pystr
  one_hour_change :: pystr
  twenty_four_hour_change :: pystr
  seven_day_change :: pystr
  market_cap :: pystr
  volume_24h :: pystr
  circulating_supply :: pystr
  scraped_at :: int

record table =
  columns :: "string list"
  indexes :: "(string \<times> string) list"
  rows :: "stored_row list"

datatype db_object = UserTable table | OtherObject

type_synonym database = "db_object option"

definition table_rows :: "database \<Rightarrow> stored_row list" where
  "table_rows db = (case db of Some (UserTable t) \<Rightarrow> rows t | _ \<Rightarrow> [])"

text \<open>
  A connection with autocommit off, pyodbc's default: the statements of the open
  transaction change \<open>working\<close>; \<open>commit\<close> makes it the stored state, \<open>rollback\<close>
  returns to the stored state. A call for which \<open>db_fault\<close> has an exception raises it
  and changes nothing.
\<close>

record connection =
  committed :: database
  working :: database

definition commit :: "env \<Rightarrow> db_op \<Rightarrow> connection \<Rightarrow> connection \<times> exn option" where
  "commit E op c =
     (case db_fault E op of
        Some e \<Rightarrow> (c, Some e)
      | None \<Rightarrow> (c\<lparr>committed := working c\<rparr>, None))"

definition rollback :: "env \<Rightarrow> connection \<Rightarrow> connection \<times> exn option" where
  "rollback E c =
     (case db_fault E Rollback of
        Some e \<Rightarrow> (c, Some e)
      | None \<Rightarrow> (c\<lparr>working := committed c\<rparr>, None))"

text \<open>
  \<open>get_sql_connection\<close> around the body of a \<^verbatim>\<open>with\<close> statement. The connection opens
  on the stored state; \<^verbatim>\<open>connection.close()\<close> runs on every exit and drops what was not
  committed; an exception it raises replaces the outcome of the body.
\<close>

definition get_sql_connection ::
  "env \<Rightarrow> database \<Rightarrow> (connection \<Rightarrow> connection \<times> (exn + 'a)) \<Rightarrow> database \<times> (exn + 'a)"
where
  "get_sql_connection E db body =
     (case db_fault E Connect of
        Some e \<Rightarrow> (db, Inl e)
      | None \<Rightarrow>
          (case body \<lparr>committed = db, working = db\<rparr> of
             (c, r) \<Rightarrow>
               (case db_fault E Close of
                  Some e \<Rightarrow> (committed c, Inl e)
                | None \<Rightarrow> (committed c, r))))"

subsection \<open>create_crypto_table\<close>

text \<open>The table of the \<^verbatim>\<open>CREATE TABLE\<close> statement, empty.\<close>

definition crypto_table :: table where
  "crypto_table =
     \<lparr> columns = [''id'', ''rank'', ''name'', ''price'', ''one_hour_change'',
                  ''twenty_four_hour_change'', ''seven_day_change'', ''market_cap'',
                  ''volume_24h'', ''circulating_supply'', ''scraped_at''],
       indexes = [(''idx_name'', ''name''), (''idx_rank'', ''rank''),
                  (''idx_scraped_at'', ''scraped_at'')],
       rows = [] \<rparr>"

text \<open>
  \<^verbatim>\<open>IF NOT EXISTS (... xtype='U') CREATE TABLE ...\<close>: nothing happens when a user table
  of the name exists; the table is created when the name is free; when the name belongs
  to an object of another kind, \<^verbatim>\<open>CREATE TABLE\<close> runs and the server rejects it.
\<close>

definition create_crypto_table :: "env \<Rightarrow> connection \<Rightarrow> connection \<times> (exn + unit)" where
  "create_crypto_table E c =
     (case db_fault E CreateTable of
        Some e \<Rightarrow> (c, Inl e)
      | None \<Rightarrow>
          (case working c of
             None \<Rightarrow> (c\<lparr>working := Some (UserTable crypto_table)\<rparr>, Inr ())
           | Some (UserTable t) \<Rightarrow> (c, Inr ())
           | Some OtherObject \<Rightarrow> (c, Inl PyodbcError)))"

subsection \<open>insert_crypto_data\<close>

text \<open>\<^verbatim>\<open>crypto[key]\<close>.\<close>

definition lookup :: "crypto \<Rightarrow> string \<Rightarrow> exn + pystr" where
  "lookup crypto key = (case crypto key of None \<Rightarrow> Inl KeyError | Some v \<Rightarrow> Inr v)"

text \<open>
  The tuple of lines 120 to 131. Its first component is
  \<^verbatim>\<open>int(crypto['rank']) if crypto['rank'].isdigit() else None\<close>.
\<close>

definition row_of :: "ucd \<Rightarrow> int \<Rightarrow> crypto \<Rightarrow> exn + stored_row" where
  "row_of U current_time crypto =
     seq (lookup crypto ''rank'') (\<lambda>r.
     seq (if str_isdigit U r then seq (py_int U r) (\<lambda>n. Inr (Some n)) else Inr None) (\<lambda>rank'.
     seq (lookup crypto ''name'') (\<lambda>name'.
     seq (lookup crypto ''price'') (\<lambda>price'.
     seq (lookup crypto ''1h_change'') (\<lambda>h1.
     seq (lookup crypto ''24h_change'') (\<lambda>h24.
     seq (lookup crypto ''7d_change'') (\<lambda>d7.
     seq (lookup crypto ''market_cap'') (\<lambda>cap.
     seq (lookup crypto ''24h_volume'') (\<lambda>vol.
     seq (lookup crypto ''circulating_supply'') (\<lambda>supply.
       Inr \<lparr> rank = rank', name = name', price = price', one_hour_change = h1,
             twenty_four_hour_change = h24, seven_day_change = d7, market_cap = cap,
             volume_24h = vol, circulating_supply = supply,
             scraped_at = current_time \<rparr>))))))))))"

text \<open>The \<^verbatim>\<open>for\<close> loop of lines 119 to 132.\<close>

fun rows_to_insert :: "ucd \<Rightarrow> int \<Rightarrow> crypto list \<Rightarrow> exn + stored_row list" where
  "rows_to_insert U current_time [] = Inr []"
| "rows_to_insert U current_time (crypto # crypto_data) =
     seq (row_of U current_time crypto) (\<lambda>row.
     seq (rows_to_insert U current_time crypto_data) (\<lambda>rows. Inr (row # rows)))"

text \<open>
  \<^verbatim>\<open>cursor.executemany\<close>: the rows are sent one after the other inside the open
  transaction; the rows before a failing one stay in it. pyodbc rejects an empty
  parameter list with a \<^verbatim>\<open>ProgrammingError\<close>.
\<close>

fun insert_rows :: "env \<Rightarrow> nat \<Rightarrow> stored_row list \<Rightarrow> database \<Rightarrow> database \<times> exn option" where
  "insert_rows E i [] db = (db, None)"
| "insert_rows E i (row # rows') db =
     (case db_fault E (InsertRow i) of
        Some e \<Rightarrow> (db, Some e)
      | None \<Rightarrow>
          (case db of
             Some (UserTable t) \<Rightarrow>
               insert_rows E (Suc i) rows' (Some (UserTable (t\<lparr>rows := rows t @ [row]\<rparr>)))
           | _ \<Rightarrow> (db, Some PyodbcError)))"

definition executemany :: "env \<Rightarrow> stored_row list \<Rightarrow> connection \<Rightarrow> connection \<times> exn option" where
  "executemany E rows' c =
     (if rows' = [] then (c, Some PyodbcError)
      else (case insert_rows E 0 rows' (working c) of
              (db, r) \<Rightarrow> (c\<lparr>working := db\<rparr>, r)))"

text \<open>
  The \<^verbatim>\<open>try\<close> block of lines 102 to 141. The natural number counts the calls of
  \<^verbatim>\<open>datetime.now()\<close> made so far in the run; the block makes one, at line 116.
\<close>

definition insert_try ::
  "env \<Rightarrow> connection \<Rightarrow> nat \<Rightarrow> crypto list \<Rightarrow> (connection \<times> nat) \<times> (exn + int)"
where
  "insert_try E c k crypto_data =
     (case create_crypto_table E c of
        (c1, Inl e) \<Rightarrow> ((c1, k), Inl e)
      | (c1, Inr u) \<Rightarrow>
     (case commit E CommitSchema c1 of
        (c2, Some e) \<Rightarrow> ((c2, k), Inl e)
      | (c2, None) \<Rightarrow>
     (case rows_to_insert (unicode E) (clock E k) crypto_data of
        Inl e \<Rightarrow> ((c2, Suc k), Inl e)
      | Inr rows' \<Rightarrow>
     (case executemany E rows' c2 of
        (c3, Some e) \<Rightarrow> ((c3, Suc k), Inl e)
      | (c3, None) \<Rightarrow>
     (case commit E CommitRows c3 of
        (c4, Some e) \<Rightarrow> ((c4, Suc k), Inl e)
      | (c4, None) \<Rightarrow> ((c4, Suc k), Inr (int (length rows'))))))))"

text \<open>
  The whole function: the cursor is opened before the \<^verbatim>\<open>try\<close>; a \<^verbatim>\<open>pyodbc.Error\<close>
  from the block is answered by \<^verbatim>\<open>rollback\<close> and raised again; the \<^verbatim>\<open>finally\<close>
  clause closes the cursor. An exception raised by the handler or by the \<^verbatim>\<open>finally\<close>
  clause replaces the outcome so far.
\<close>

definition insert_crypto_data ::
  "env \<Rightarrow> connection \<Rightarrow> nat \<Rightarrow> crypto list \<Rightarrow> (connection \<times> nat) \<times> (exn + int)"
where
  "insert_crypto_data E c k crypto_data =
     (case db_fault E Cursor of
        Some e \<Rightarrow> ((c, k), Inl e)
      | None \<Rightarrow>
          (case insert_try E c k crypto_data of
             ((c1, k1), r) \<Rightarrow>
               (case (case r of
                        Inr n \<Rightarrow> (c1, Inr n)
                      | Inl e \<Rightarrow>
                          if is_pyodbc_Error e then
                            (case rollback E c1 of
                               (c2, Some e') \<Rightarrow> (c2, Inl e')
                             | (c2, None) \<Rightarrow> (c2, Inl e))
                          else (c1, Inl e)) of
                  (c2, r2) \<Rightarrow>
                    (case db_fault E CursorClose of
                       Some e \<Rightarrow> ((c2, k1), Inl e)
                     | None \<Rightarrow> ((c2, k1), r2)))))"

subsection \<open>save_to_sql_server\<close>

definition save_to_sql_server ::
  "env \<Rightarrow> database \<Rightarrow> nat \<Rightarrow> crypto list \<Rightarrow> database \<times> (exn + bool)"
where
  "save_to_sql_server E db k crypto_data =
     (if crypto_data = [] then (db, Inr False)
      else
        (case get_sql_connection E db
                (\<lambda>connection. case insert_crypto_data E connection k crypto_data of
                                 ((c, k'), r) \<Rightarrow> (c, r)) of
           (db', Inr rows_inserted) \<Rightarrow> (db', Inr True)
         | (db', Inl e) \<Rightarrow> if is_Exception e then (db', Inr False) else (db', Inl e)))"

subsection \<open>delete_old_data\<close>

text \<open>
  The \<^verbatim>\<open>DELETE\<close> statement with its parameter \<open>- days\<close>: the rows with
  \<^verbatim>\<open>scraped_at < DATEADD(day, - days, GETDATE())\<close> go, and \<^verbatim>\<open>cursor.rowcount\<close> is
  their number. Times are in seconds.
\<close>

definition dateadd_day :: "int \<Rightarrow> int \<Rightarrow> int" where
  "dateadd_day n t = t + n * 86400"

definition execute_delete :: "env \<Rightarrow> int \<Rightarrow> connection \<Rightarrow> connection \<times> (exn + int)" where
  "execute_delete E param c =
     (case db_fault E Delete of
        Some e \<Rightarrow> (c, Inl e)
      | None \<Rightarrow>
          (case working c of
             Some (UserTable t) \<Rightarrow>
               (c\<lparr>working := Some (UserTable
                    (t\<lparr>rows := filter (\<lambda>r. \<not> scraped_at r < dateadd_day param (getdate E)) (rows t)\<rparr>))\<rparr>,
                Inr (int (length (filter (\<lambda>r. scraped_at r < dateadd_day param (getdate E)) (rows t)))))
           | _ \<Rightarrow> (c, Inl PyodbcError)))"

text \<open>The body of the \<^verbatim>\<open>with\<close> statement, lines 268 to 281.\<close>

definition delete_body :: "env \<Rightarrow> int \<Rightarrow> connection \<Rightarrow> connection \<times> (exn + int)" where
  "delete_body E days c =
     (case db_fault E Cursor of
        Some e \<Rightarrow> (c, Inl e)
      | None \<Rightarrow>
     (case execute_delete E (- days) c of
        (c1, Inl e) \<Rightarrow> (c1, Inl e)
      | (c1, Inr rows_deleted) \<Rightarrow>
     (case commit E CommitDelete c1 of
        (c2, Some e) \<Rightarrow> (c2, Inl e)
      | (c2, None) \<Rightarrow>
     (case db_fault E CursorClose of
        Some e \<Rightarrow> (c2, Inl e)
      | None \<Rightarrow> (c2, Inr rows_deleted)))))"

definition delete_old_data :: "env \<Rightarrow> database \<Rightarrow> int \<Rightarrow> database \<times> (exn + int)" where
  "delete_old_data E db days =
     (case get_sql_connection E db (delete_body E days) of
        (db', Inr rows_deleted) \<Rightarrow> (db', Inr rows_deleted)
      | (db', Inl e) \<Rightarrow> if is_Exception e then (db', Inr 0) else (db', Inl e))"

section \<open>main.py\<close>



section \<open>Sample data\<close>

text \<open>
  A page and an environment for the examples: a header row (no \<^verbatim>\<open>td\<close>), two well
  formed rows and between them a row that lacks cells; a run in which nothing fails, the
  page grows twice and then keeps its height.
\<close>

definition str :: "string \<Rightarrow> pystr" where
  "str s = map of_char s"

definition data_row :: "string \<Rightarrow> string \<Rightarrow> string \<Rightarrow> row" where
  "data_row r n p =
     [Td [], Td (str r), Td (str n), Td (str p), Td (str ''+0.1%''), Td (str ''-1.2%''),
      Td (str ''+3.4%''), Td (str ''$1.2T''), Td (str ''$30B''), Td (str '' 19M BTC ''),
      Td []]"

definition sample_soup :: soup where
  "sample_soup =
     Some [[], data_row ''1'' ''Bitcoin'' ''$60,000'',
           take 9 (data_row ''2'' ''Ethereum'' ''$3,000''),
           data_row ''3'' ''Tether'' ''$1.00'']"

definition sample_env :: env where
  "sample_env =
     \<lparr> unicode = latin1,
       SCROLL_STEP = 500,
       MAX_SCROLL_ATTEMPTS = 10,
       logging_setup = None,
       chrome_start = None,
       driver_get = None,
       wait_table = None,
       heights = (\<lambda>k. if k = 0 then 1000 else if k = 1 then 2000 else 2500),
       page_source = Inr sample_soup,
       driver_quit = None,
       db_fault = (\<lambda>op. None),
       clock = (\<lambda>k. 1700000000 + int k),
       getdate = 1700000000 \<rparr>"

text \<open>A dictionary as \<open>parse_crypto_data\<close> builds it, with the given rank and name.\<close>

definition sample_crypto :: "pystr \<Rightarrow> string \<Rightarrow> crypto" where
  "sample_crypto r n =
     [''rank'' \<mapsto> r, ''name'' \<mapsto> str n, ''price'' \<mapsto> str ''$1.00'',
      ''1h_change'' \<mapsto> str ''+0.1%'', ''24h_change'' \<mapsto> str ''-1.2%'',
      ''7d_change'' \<mapsto> str ''+3.4%'', ''market_cap'' \<mapsto> str ''$1.2T'',
      ''24h_volume'' \<mapsto> str ''$30B'', ''circulating_supply'' \<mapsto> str ''19M BTC'']"

text \<open>A batch of two dictionaries, and the connection that opens on an empty database.\<close>

definition sample_batch :: "crypto list" where
  "sample_batch = [sample_crypto (str ''1'') ''Bitcoin'', sample_crypto (str ''2'') ''Ethereum'']"

definition fresh_connection :: connection where
  "fresh_connection = \<lparr>committed = None, working = None\<rparr>"

text \<open>The same run with the database driver failing at one call.\<close>

definition failing_at :: "db_op \<Rightarrow> env" where
  "failing_at op' = sample_env\<lparr>db_fault := (\<lambda>op. if op = op' then Some PyodbcError else None)\<rparr>"

text \<open>A database whose table holds one row, scraped five days before the server's time.\<close>

definition recent_db :: database where
  "recent_db =
     Some (UserTable (crypto_table\<lparr>rows :=
       [\<lparr> rank = Some 1, name = str ''Bitcoin'', price = str ''$60,000'',
           one_hour_change = str ''+0.1%'', twenty_four_hour_change = str ''-1.2%'',
           seven_day_change = str ''+3.4%'', market_cap = str ''$1.2T'',
           volume_24h = str ''$30B'', circulating_supply = str ''19M BTC'',
           scraped_at = 1700000000 - 5 * 86400 \<rparr>]\<rparr>))"

section \<open>The content loader terminates within its bound\<close>

text \<open>
  \<open>scroll_loop\<close> is a total function: its termination proof is the measure
  \<open>max_scrolls - scroll_attempts\<close>, which every pass that does not leave the loop
  decreases. On entry to a pass the counter \<open>a\<close> has these properties: \<open>a + 1\<close> heights
  have been read, \<open>last_height\<close> is the last of them, and each of the \<open>a\<close> passes made
  read a height different from the one before it.
\<close>

lemma scroll_loop_result:
  assumes "0 \<le> scroll_attempts s" "reads s = Suc (nat (scroll_attempts s))"
    and "last_height s = heights E (nat (scroll_attempts s))"
    and "\<forall>j<nat (scroll_attempts s). heights E (Suc j) \<noteq> heights E j"
    and "scroll_loop E N s = (s', r)"
  shows "scroll_attempts s \<le> scroll_attempts s' \<and>
         scroll_attempts s' \<le> max (scroll_attempts s) N \<and>
         last_height s' = heights E (nat (scroll_attempts s')) \<and>
         (\<forall>j<nat (scroll_attempts s'). heights E (Suc j) \<noteq> heights E j) \<and>
         (r = None \<and> N \<le> scroll_attempts s' \<and> reads s' = Suc (nat (scroll_attempts s')) \<or>
          r = None \<and> scroll_attempts s' < N \<and> SCROLL_STEP E \<noteq> 0 \<and>
            heights E (Suc (nat (scroll_attempts s'))) = heights E (nat (scroll_attempts s')) \<and>
            reads s' = Suc (Suc (nat (scroll_attempts s'))) \<or>
          r = Some ValueError \<and> SCROLL_STEP E = 0 \<and> scroll_attempts s' < N \<and> s' = s)"
  using assms
proof (induction E N s rule: scroll_loop.induct)
  case (1 E N s)
  show ?case
  proof (cases "scroll_attempts s < N")
    case False
    then show ?thesis using "1.prems" by simp
  next
    case lt: True
    show ?thesis
    proof (cases "py_range 0 (last_height s) (SCROLL_STEP E)")
      case (Inl e)
      then have "e = ValueError \<and> SCROLL_STEP E = 0"
        by (auto simp: py_range_def split: if_splits)
      with Inl lt "1.prems" show ?thesis by auto
    next
      case (Inr steps)
      then have step: "SCROLL_STEP E \<noteq> 0"
        by (auto simp: py_range_def split: if_splits)
      show ?thesis
      proof (cases "heights E (reads s) = last_height s")
        case True
        with Inr lt step "1.prems" show ?thesis by auto
      next
        case False
        let ?s1 = "\<lparr>scroll_attempts = scroll_attempts s + 1, last_height = heights E (reads s),
                     reads = Suc (reads s), scrolls = scrolls s @ steps\<rparr>"
        have eq: "scroll_loop E N ?s1 = (s', r)"
          using lt Inr False "1.prems"(5) by (subst (asm) scroll_loop.simps) simp
        have n1: "nat (scroll_attempts s + 1) = Suc (nat (scroll_attempts s))"
          using "1.prems"(1) by simp
        have p1: "0 \<le> scroll_attempts ?s1" using "1.prems"(1) by simp
        have p2: "reads ?s1 = Suc (nat (scroll_attempts ?s1))"
          using "1.prems"(2) n1 by simp
        have p3: "last_height ?s1 = heights E (nat (scroll_attempts ?s1))"
          using "1.prems"(2) n1 by simp
        have p4: "\<forall>j<nat (scroll_attempts ?s1). heights E (Suc j) \<noteq> heights E j"
        proof (intro allI impI)
          fix j assume "j < nat (scroll_attempts ?s1)"
          then have "j < nat (scroll_attempts s) \<or> j = nat (scroll_attempts s)"
            using n1 by auto
          then show "heights E (Suc j) \<noteq> heights E j"
            using "1.prems"(2,3,4) False by auto
        qed
        note IH = "1.IH"[OF lt Inr False p1 p2 p3 p4 eq]
        show ?thesis using IH lt step by auto
      qed
    qed
  qed
qed

text \<open>
  Claim C3. For every sequence of heights the browser reports, every step and every
  maximum \<open>N\<close>, \<open>scroll_to_load_content\<close> returns, with its counter between \<open>0\<close> and
  \<open>N\<close> and at most \<open>N\<close> passes made (a pass that completes reads one height, after the
  one read before the loop). The counter is the number of passes that read a height
  different from the one before: each of the heights \<open>1, ..., scroll_attempts\<close> differs
  from its predecessor. The loop is left in one of three ways:
  \<^item> the counter has reached \<open>N\<close>, after as many passes;
  \<^item> with the counter below \<open>N\<close>, the pass after the counted ones read the height it
    already had, and no pass follows it;
  \<^item> \<^verbatim>\<open>range\<close> raised in the first pass, for a zero \<^verbatim>\<open>SCROLL_STEP\<close>.
  So, with a step that is not zero, the counter is the least \<open>j\<close> with \<open>N \<le> j\<close> or height
  \<open>j + 1\<close> equal to height \<open>j\<close>: a pass that finds the height unchanged ends the loop,
  and nothing else does before the counter is \<open>N\<close>.
\<close>

theorem scroll_to_load_content_bounded:
  assumes "scroll_to_load_content E N = (s, r)"
  shows "0 \<le> scroll_attempts s \<and> scroll_attempts s \<le> max 0 N \<and>
         reads s \<le> Suc (nat N) \<and>
         last_height s = heights E (nat (scroll_attempts s)) \<and>
         (\<forall>j<nat (scroll_attempts s). heights E (Suc j) \<noteq> heights E j) \<and>
         (\<forall>j. int j < N \<and> SCROLL_STEP E \<noteq> 0 \<and> heights E (Suc j) = heights E j \<longrightarrow>
              scroll_attempts s \<le> int j \<and> r = None \<and>
              reads s = Suc (Suc (nat (scroll_attempts s)))) \<and>
         (r = None \<and> N \<le> scroll_attempts s \<and> reads s = Suc (nat (scroll_attempts s)) \<or>
          r = None \<and> scroll_attempts s < N \<and> SCROLL_STEP E \<noteq> 0 \<and>
            heights E (Suc (nat (scroll_attempts s))) = heights E (nat (scroll_attempts s)) \<and>
            reads s = Suc (Suc (nat (scroll_attempts s))) \<or>
          r = Some ValueError \<and> SCROLL_STEP E = 0 \<and> 0 < N \<and>
            scroll_attempts s = 0 \<and> reads s = 1)"
proof -
  let ?s0 = "\<lparr>scroll_attempts = 0, last_height = heights E 0, reads = 1, scrolls = []\<rparr>"
  have "0 \<le> scroll_attempts ?s0" "reads ?s0 = Suc (nat (scroll_attempts ?s0))"
    "last_height ?s0 = heights E (nat (scroll_attempts ?s0))"
    "\<forall>j<nat (scroll_attempts ?s0). heights E (Suc j) \<noteq> heights E j" by simp_all
  from scroll_loop_result[OF this assms[unfolded scroll_to_load_content_def]]
  have res: "0 \<le> scroll_attempts s" "scroll_attempts s \<le> max 0 N"
    "last_height s = heights E (nat (scroll_attempts s))"
    "\<forall>j<nat (scroll_attempts s). heights E (Suc j) \<noteq> heights E j"
    "r = None \<and> N \<le> scroll_attempts s \<and> reads s = Suc (nat (scroll_attempts s)) \<or>
          r = None \<and> scroll_attempts s < N \<and> SCROLL_STEP E \<noteq> 0 \<and>
            heights E (Suc (nat (scroll_attempts s))) = heights E (nat (scroll_attempts s)) \<and>
            reads s = Suc (Suc (nat (scroll_attempts s))) \<or>
          r = Some ValueError \<and> SCROLL_STEP E = 0 \<and> 0 < N \<and>
            scroll_attempts s = 0 \<and> reads s = 1"
    by auto
  have bound: "reads s \<le> Suc (nat N)" using res(1,2,5) by auto
  have stable: "scroll_attempts s \<le> int j \<and> r = None \<and>
              reads s = Suc (Suc (nat (scroll_attempts s)))"
    if "int j < N" "SCROLL_STEP E \<noteq> 0" "heights E (Suc j) = heights E j" for j
  proof -
    have le: "scroll_attempts s \<le> int j"
    proof (rule ccontr)
      assume "\<not> scroll_attempts s \<le> int j"
      then have "j < nat (scroll_attempts s)" by simp
      with res(4) that(3) show False by blast
    qed
    with that(1) have "scroll_attempts s < N" by simp
    with res(5) that(2) le show ?thesis by auto
  qed
  from res bound stable show ?thesis by blast
qed

text \<open>
  Two runs: the page of \<open>sample_env\<close> grows twice and then keeps its height, and the
  loop ends after the third pass with the counter at 2; a page that grows at every reading
  ends the loop by the bound of 3.
\<close>

theorem scroll_to_load_content_bounded_witness:
  "scroll_to_load_content sample_env 10 =
     (\<lparr>scroll_attempts = 2, last_height = 2500, reads = 4,
       scrolls = [0, 500, 0, 500, 1000, 1500, 0, 500, 1000, 1500, 2000]\<rparr>, None) \<and>
   SCROLL_STEP sample_env \<noteq> 0 \<and>
   heights sample_env (Suc 2) = heights sample_env 2 \<and>
   scroll_to_load_content (sample_env\<lparr>heights := (\<lambda>k. 1000 * int k)\<rparr>) 3 =
     (\<lparr>scroll_attempts = 3, last_height = 3000, reads = 4,
       scrolls = [0, 500, 0, 500, 1000, 1500]\<rparr>, None) \<and>
   reads \<lparr>scroll_attempts = 3, last_height = 3000, reads = 4,
          scrolls = [0, 500, 0, 500, 1000, 1500]\<rparr> \<le> Suc (nat 3) \<and>
   scroll_attempts \<lparr>scroll_attempts = 2, last_height = 2500, reads = 4,
       scrolls = [0, 500, 0, 500, 1000, 1500, 0, 500, 1000, 1500, 2000]\<rparr> \<le> int 2"
proof -
  have stable: "scroll_to_load_content sample_env 10 =
     (\<lparr>scroll_attempts = 2, last_height = 2500, reads = 4,
       scrolls = [0, 500, 0, 500, 1000, 1500, 0, 500, 1000, 1500, 2000]\<rparr>, None)"
    by (simp add: scroll_to_load_content_def sample_env_def py_range_def upt_rec)
  have step: "SCROLL_STEP sample_env \<noteq> 0" by (simp add: sample_env_def)
  have same: "heights sample_env (Suc 2) = heights sample_env 2" by (simp add: sample_env_def)
  have growing: "scroll_to_load_content (sample_env\<lparr>heights := (\<lambda>k. 1000 * int k)\<rparr>) 3 =
     (\<lparr>scroll_attempts = 3, last_height = 3000, reads = 4,
       scrolls = [0, 500, 0, 500, 1000, 1500]\<rparr>, None)"
    by (simp add: scroll_to_load_content_def sample_env_def py_range_def upt_rec)
  have lt: "int 2 < 10" by simp
  from scroll_to_load_content_bounded[OF stable] step same lt
  have a: "scroll_attempts \<lparr>scroll_attempts = 2, last_height = 2500, reads = 4,
       scrolls = [0, 500, 0, 500, 1000, 1500, 0, 500, 1000, 1500, 2000]\<rparr> \<le> int 2"
    by blast
  from scroll_to_load_content_bounded[OF growing]
  have b: "reads \<lparr>scroll_attempts = 3, last_height = 3000, reads = 4,
          scrolls = [0, 500, 0, 500, 1000, 1500]\<rparr> \<le> Suc (nat 3)"
    by blast
  from stable step same growing a b show ?thesis by blast
qed

section \<open>The batch insert\<close>

subsection \<open>Facts about the steps\<close>

lemma seq_Inr_iff: "seq m f = Inr y \<longleftrightarrow> (\<exists>x. m = Inr x \<and> f x = Inr y)"
  by (cases m) auto

lemma row_of_scraped_at: "row_of U t crypto = Inr row \<Longrightarrow> scraped_at row = t"
  unfolding row_of_def seq_Inr_iff by auto

lemma rows_to_insert_length:
  "rows_to_insert U t crypto_data = Inr rows' \<Longrightarrow> length rows' = length crypto_data"
  by (induction crypto_data arbitrary: rows') (auto simp: seq_Inr_iff)

lemma rows_to_insert_scraped_at:
  "rows_to_insert U t crypto_data = Inr rows' \<Longrightarrow> \<forall>row\<in>set rows'. scraped_at row = t"
  by (induction crypto_data arbitrary: rows') (auto simp: seq_Inr_iff dest: row_of_scraped_at)

lemma table_rows_UserTable [simp]: "table_rows (Some (UserTable t)) = rows t"
  by (simp add: table_rows_def)

lemma insert_rows_prefix:
  "insert_rows E i rows' db = (db', r) \<Longrightarrow>
   \<exists>n. n \<le> length rows' \<and> table_rows db' = table_rows db @ take n rows' \<and>
       (r = None \<longrightarrow> n = length rows')"
proof (induction rows' arbitrary: i db)
  case Nil
  then show ?case by simp
next
  case (Cons row rows')
  show ?case
  proof (cases "db_fault E (InsertRow i)")
    case (Some e)
    with Cons.prems have "db' = db" "r = Some e" by auto
    then show ?thesis by (intro exI[of _ 0]) simp
  next
    case None
    show ?thesis
    proof (cases db)
      case None': None
      with None Cons.prems have "db' = db" "r = Some PyodbcError" by auto
      then show ?thesis by (intro exI[of _ 0]) simp
    next
      case (Some obj)
      show ?thesis
      proof (cases obj)
        case OtherObject
        with Some None Cons.prems have "db' = db" "r = Some PyodbcError" by auto
        then show ?thesis by (intro exI[of _ 0]) simp
      next
        case (UserTable t)
        with Some None Cons.prems
        have "insert_rows E (Suc i) rows' (Some (UserTable (t\<lparr>rows := rows t @ [row]\<rparr>))) = (db', r)"
          by simp
        from Cons.IH[OF this] obtain n where
          n: "n \<le> length rows'"
             "table_rows db' = table_rows (Some (UserTable (t\<lparr>rows := rows t @ [row]\<rparr>))) @ take n rows'"
             "r = None \<longrightarrow> n = length rows'" by blast
        show ?thesis using n Some UserTable
          by (intro exI[of _ "Suc n"]) auto
      qed
    qed
  qed
qed

lemma insert_rows_fault:
  "j < length rows' \<Longrightarrow> db_fault E (InsertRow (i + j)) \<noteq> None \<Longrightarrow>
   snd (insert_rows E i rows' db) \<noteq> None"
proof (induction rows' arbitrary: i j db)
  case Nil
  then show ?case by simp
next
  case (Cons row rows')
  show ?case
  proof (cases j)
    case 0
    with Cons.prems show ?thesis by auto
  next
    case (Suc j')
    with Cons.prems have "j' < length rows'" "db_fault E (InsertRow (Suc i + j')) \<noteq> None"
      by auto
    from Cons.IH[OF this] show ?thesis
      by (auto split: option.splits db_object.splits)
  qed
qed

lemma create_crypto_table_rows:
  "create_crypto_table E c = (c', r) \<Longrightarrow>
   committed c' = committed c \<and> table_rows (working c') = table_rows (working c)"
  by (auto simp: create_crypto_table_def table_rows_def crypto_table_def
           split: option.splits db_object.splits)

lemma commit_simps:
  "commit E op c = (c', r) \<Longrightarrow>
   (r = None \<and> c' = c\<lparr>committed := working c\<rparr> \<and> db_fault E op = None) \<or>
   (\<exists>e. r = Some e \<and> c' = c \<and> db_fault E op = Some e)"
  by (auto simp: commit_def split: option.splits)

lemma executemany_result:
  "executemany E rows' c = (c', r) \<Longrightarrow>
   committed c' = committed c \<and>
   (\<exists>n. n \<le> length rows' \<and> table_rows (working c') = table_rows (working c) @ take n rows' \<and>
        (r = None \<longrightarrow> n = length rows'))"
proof -
  assume a: "executemany E rows' c = (c', r)"
  show ?thesis
  proof (cases "rows' = []")
    case True
    with a show ?thesis by (auto simp: executemany_def)
  next
    case False
    obtain db r' where ir: "insert_rows E 0 rows' (working c) = (db, r')" by force
    with a False have "c' = c\<lparr>working := db\<rparr>" "r = r'" by (auto simp: executemany_def)
    with insert_rows_prefix[OF ir] show ?thesis by auto
  qed
qed

lemma executemany_fault:
  "j < length rows' \<Longrightarrow> db_fault E (InsertRow j) \<noteq> None \<Longrightarrow> snd (executemany E rows' c) \<noteq> None"
  using insert_rows_fault[of j rows' E 0 "working c"]
  by (auto simp: executemany_def split: prod.splits)

lemma insert_try_result:
  assumes "insert_try E c k crypto_data = ((c', k'), r)"
  shows "(k' = k \<or> k' = Suc k) \<and>
    (\<exists>new. table_rows (working c') = table_rows (working c) @ new \<and>
           (\<forall>row\<in>set new. scraped_at row = clock E k) \<and>
           (\<forall>n. r = Inr n \<longrightarrow> n = int (length crypto_data) \<and> length new = length crypto_data)) \<and>
    (\<forall>n. r = Inr n \<longrightarrow> k' = Suc k \<and> committed c' = working c') \<and>
    (\<forall>e. r = Inl e \<longrightarrow> table_rows (committed c') = table_rows (committed c) \<or>
                        table_rows (committed c') = table_rows (working c))"
proof -
  obtain c1 r1 where cr: "create_crypto_table E c = (c1, r1)" by force
  note c1 = create_crypto_table_rows[OF cr]
  show ?thesis
  proof (cases r1)
    case (Inl e)
    with assms cr have "c' = c1" "k' = k" "r = Inl e" by (auto simp: insert_try_def)
    with c1 show ?thesis by auto
  next
    case (Inr u)
    obtain c2 r2 where cm: "commit E CommitSchema c1 = (c2, r2)" by force
    show ?thesis
    proof (cases r2)
      case (Some e)
      with assms cr Inr cm have "c' = c2" "k' = k" "r = Inl e" by (auto simp: insert_try_def)
      moreover from commit_simps[OF cm] Some have "c2 = c1" by auto
      ultimately show ?thesis using c1 by auto
    next
      case None
      with commit_simps[OF cm] have c2: "c2 = c1\<lparr>committed := working c1\<rparr>" by auto
      show ?thesis
      proof (cases "rows_to_insert (unicode E) (clock E k) crypto_data")
        case e: (Inl e)
        with assms cr Inr cm None have "c' = c2" "k' = Suc k" "r = Inl e"
          by (auto simp: insert_try_def)
        with c1 c2 show ?thesis by auto
      next
        case rs: (Inr rows')
        note len = rows_to_insert_length[OF rs] and ts = rows_to_insert_scraped_at[OF rs]
        obtain c3 r3 where ex: "executemany E rows' c2 = (c3, r3)" by force
        from executemany_result[OF ex] obtain n where
          n: "committed c3 = committed c2" "n \<le> length rows'"
             "table_rows (working c3) = table_rows (working c2) @ take n rows'"
             "r3 = None \<longrightarrow> n = length rows'" by blast
        have tk: "\<forall>row\<in>set (take n rows'). scraped_at row = clock E k"
          using ts by (auto dest: in_set_takeD)
        show ?thesis
        proof (cases r3)
          case (Some e)
          with assms cr Inr cm None rs ex have "c' = c3" "k' = Suc k" "r = Inl e"
            by (auto simp: insert_try_def)
          with c1 c2 n tk show ?thesis by auto
        next
          case None3: None
          obtain c4 r4 where cm4: "commit E CommitRows c3 = (c4, r4)" by force
          show ?thesis
          proof (cases r4)
            case (Some e)
            with assms cr Inr cm None rs ex None3 cm4 have "c' = c4" "k' = Suc k" "r = Inl e"
              by (auto simp: insert_try_def)
            moreover from commit_simps[OF cm4] Some have "c4 = c3" by auto
            ultimately show ?thesis using c1 c2 n tk by auto
          next
            case None4: None
            with assms cr Inr cm None rs ex None3 cm4
            have "c' = c4" "k' = Suc k" "r = Inr (int (length rows'))"
              by (auto simp: insert_try_def)
            moreover from commit_simps[OF cm4] None4 have "c4 = c3\<lparr>committed := working c3\<rparr>" by auto
            ultimately show ?thesis using c1 c2 n tk len None3 by auto
          qed
        qed
      qed
    qed
  qed
qed

lemma insert_try_fails:
  assumes "db_fault E CreateTable \<noteq> None \<or> db_fault E CommitSchema \<noteq> None \<or>
           (\<exists>i<length crypto_data. db_fault E (InsertRow i) \<noteq> None) \<or>
           db_fault E CommitRows \<noteq> None"
  shows "\<exists>e. snd (insert_try E c k crypto_data) = Inl e"
proof -
  obtain c1 r1 where cr: "create_crypto_table E c = (c1, r1)" by force
  show ?thesis
  proof (cases r1)
    case (Inl e)
    with cr show ?thesis by (simp add: insert_try_def)
  next
    case (Inr u)
    with cr have f1: "db_fault E CreateTable = None"
      by (auto simp: create_crypto_table_def split: option.splits)
    obtain c2 r2 where cm: "commit E CommitSchema c1 = (c2, r2)" by force
    show ?thesis
    proof (cases r2)
      case (Some e)
      with cr Inr cm show ?thesis by (simp add: insert_try_def)
    next
      case None
      with commit_simps[OF cm] have f2: "db_fault E CommitSchema = None" by auto
      show ?thesis
      proof (cases "rows_to_insert (unicode E) (clock E k) crypto_data")
        case e: (Inl e)
        with cr Inr cm None show ?thesis by (simp add: insert_try_def)
      next
        case rs: (Inr rows')
        note len = rows_to_insert_length[OF rs]
        obtain c3 r3 where ex: "executemany E rows' c2 = (c3, r3)" by force
        show ?thesis
        proof (cases r3)
          case (Some e)
          with cr Inr cm None rs ex show ?thesis by (simp add: insert_try_def)
        next
          case None3: None
          have f3: "\<not> (\<exists>i<length crypto_data. db_fault E (InsertRow i) \<noteq> None)"
          proof
            assume "\<exists>i<length crypto_data. db_fault E (InsertRow i) \<noteq> None"
            then obtain i where "i < length rows'" "db_fault E (InsertRow i) \<noteq> None"
              using len by auto
            from executemany_fault[OF this, of c2] ex None3 show False by simp
          qed
          obtain c4 r4 where cm4: "commit E CommitRows c3 = (c4, r4)" by force
          show ?thesis
          proof (cases r4)
            case (Some e)
            with cr Inr cm None rs ex None3 cm4 show ?thesis by (simp add: insert_try_def)
          next
            case None4: None
            with commit_simps[OF cm4] have "db_fault E CommitRows = None" by auto
            with f1 f2 f3 assms show ?thesis by blast
          qed
        qed
      qed
    qed
  qed
qed

lemma insert_crypto_data_cases:
  assumes "insert_crypto_data E c k crypto_data = ((c', k'), r)"
  shows "(\<exists>e. db_fault E Cursor = Some e \<and> c' = c \<and> k' = k \<and> r = Inl e) \<or>
     (db_fault E Cursor = None \<and>
      (\<exists>c1 r1. insert_try E c k crypto_data = ((c1, k'), r1) \<and>
         (c' = c1 \<or> c' = c1\<lparr>working := committed c1\<rparr> \<and> (\<exists>e. r1 = Inl e)) \<and>
         (\<forall>n. r = Inr n \<longrightarrow> r1 = Inr n \<and> c' = c1) \<and>
         (\<forall>e. r1 = Inl e \<longrightarrow> (\<exists>e'. r = Inl e'))))"
proof (cases "db_fault E Cursor")
  case (Some e)
  with assms show ?thesis by (simp add: insert_crypto_data_def)
next
  case None
  obtain c1 k1 r1 where it: "insert_try E c k crypto_data = ((c1, k1), r1)"
    by (metis surj_pair)
  show ?thesis
  proof (cases r1)
    case (Inr n)
    with assms None it show ?thesis
      by (auto simp: insert_crypto_data_def split: option.splits)
  next
    case (Inl e)
    with assms None it show ?thesis
      by (auto simp: insert_crypto_data_def rollback_def split: option.splits if_splits)
  qed
qed

lemma insert_rows_error:
  "insert_rows E i rows' db = (db', Some e) \<Longrightarrow>
   e = PyodbcError \<or> (\<exists>j. db_fault E (InsertRow j) = Some e)"
  by (induction rows' arbitrary: i db)
     (auto split: option.splits db_object.splits)

lemma insert_try_open_transaction:
  assumes "insert_try E c k crypto_data = ((c1, k1), Inl e)"
    and "\<forall>op e. db_fault E op = Some e \<longrightarrow> is_pyodbc_Error e"
    and "\<not> is_pyodbc_Error e"
  shows "working c1 = committed c1"
  using assms
  by (auto simp: insert_try_def create_crypto_table_def commit_def executemany_def is_pyodbc_Error_def
           split: option.splits db_object.splits sum.splits prod.splits if_splits
           dest!: insert_rows_error)

text \<open>The definitions that evaluate a concrete batch insert.\<close>

lemmas insert_eval = insert_crypto_data_def insert_try_def create_crypto_table_def commit_def
  rollback_def executemany_def sample_env_def sample_batch_def sample_crypto_def row_of_def
  lookup_def str_isdigit_def py_int_def latin1_def str_def is_pyodbc_Error_def
  fresh_connection_def failing_at_def

subsection \<open>All or nothing\<close>

text \<open>
  Claim C1. When one of the writes of the batch insert fails (creating the table, the
  commit after it, the insert of one of the rows, the final commit), whatever the batch,
  the connection and the other calls do:
  \<^item> \<open>insert_crypto_data\<close> raises;
  \<^item> the stored rows are the rows stored before the call or, when the connection came
    with an open transaction, the rows of that transaction, which the commit after
    \<open>create_crypto_table\<close> stores: no row of the batch is stored. On a connection
    without an open transaction, as \<open>get_sql_connection\<close> yields it, the stored rows are
    those before the call;
  \<^item> when the driver's exceptions are \<^verbatim>\<open>pyodbc.Error\<close>s and \<^verbatim>\<open>rollback\<close> succeeds, the
    transaction is empty afterwards.
\<close>

theorem insert_crypto_data_all_or_nothing:
  assumes "insert_crypto_data E c k crypto_data = ((c', k'), r)"
    and "db_fault E CreateTable \<noteq> None \<or> db_fault E CommitSchema \<noteq> None \<or>
         (\<exists>i<length crypto_data. db_fault E (InsertRow i) \<noteq> None) \<or>
         db_fault E CommitRows \<noteq> None"
  shows "(\<exists>e. r = Inl e) \<and>
         (table_rows (committed c') = table_rows (committed c) \<or>
          table_rows (committed c') = table_rows (working c)) \<and>
         (working c = committed c \<longrightarrow> table_rows (committed c') = table_rows (committed c)) \<and>
         ((\<forall>op e. db_fault E op = Some e \<longrightarrow> is_pyodbc_Error e) \<and> db_fault E Rollback = None \<and>
           working c = committed c \<longrightarrow> working c' = committed c')"
proof -
  from insert_crypto_data_cases[OF assms(1)]
  show ?thesis
  proof
    assume "\<exists>e. db_fault E Cursor = Some e \<and> c' = c \<and> k' = k \<and> r = Inl e"
    then show ?thesis by auto
  next
    assume "db_fault E Cursor = None \<and>
      (\<exists>c1 r1. insert_try E c k crypto_data = ((c1, k'), r1) \<and>
         (c' = c1 \<or> c' = c1\<lparr>working := committed c1\<rparr> \<and> (\<exists>e. r1 = Inl e)) \<and>
         (\<forall>n. r = Inr n \<longrightarrow> r1 = Inr n \<and> c' = c1) \<and>
         (\<forall>e. r1 = Inl e \<longrightarrow> (\<exists>e'. r = Inl e')))"
    then obtain c1 r1 where it: "insert_try E c k crypto_data = ((c1, k'), r1)"
      and c': "c' = c1 \<or> c' = c1\<lparr>working := committed c1\<rparr> \<and> (\<exists>e. r1 = Inl e)"
      and r: "\<forall>e. r1 = Inl e \<longrightarrow> (\<exists>e'. r = Inl e')"
      and cur: "db_fault E Cursor = None" by blast
    from insert_try_fails[OF assms(2), of c k] it obtain e where e: "r1 = Inl e" by auto
    note res = insert_try_result[OF it]
    have raised: "\<exists>e. r = Inl e" using r e by blast
    have com: "committed c' = committed c1" using c' by auto
    have rows': "table_rows (committed c') = table_rows (committed c) \<or>
          table_rows (committed c') = table_rows (working c)"
      using res e com by auto
    have rb: "working c' = committed c'"
      if p: "\<forall>op e. db_fault E op = Some e \<longrightarrow> is_pyodbc_Error e" and rbk: "db_fault E Rollback = None"
    proof (cases "is_pyodbc_Error e")
      case True
      with assms(1) it e rbk cur have "c' = c1\<lparr>working := committed c1\<rparr>"
        by (auto simp: insert_crypto_data_def rollback_def split: option.splits)
      then show ?thesis by simp
    next
      case False
      from insert_try_open_transaction[OF it[unfolded e] p False] c' show ?thesis by auto
    qed
    show ?thesis using raised rows' rb by auto
  qed
qed

text \<open>The scenario of the specification: the insert of the last row of a batch fails.\<close>

theorem insert_crypto_data_all_or_nothing_witness:
  "insert_crypto_data (failing_at (InsertRow 1)) fresh_connection 0 sample_batch =
     ((\<lparr>committed = Some (UserTable crypto_table), working = Some (UserTable crypto_table)\<rparr>, 1),
      Inl PyodbcError) \<and>
   1 < length sample_batch \<and>
   db_fault (failing_at (InsertRow 1)) (InsertRow 1) = Some PyodbcError \<and>
   working fresh_connection = committed fresh_connection \<and>
   db_fault (failing_at (InsertRow 1)) Rollback = None \<and>
   table_rows (committed \<lparr>committed = Some (UserTable crypto_table),
                            working = Some (UserTable crypto_table)\<rparr>) =
     table_rows (committed fresh_connection)"
proof -
  have run: "insert_crypto_data (failing_at (InsertRow 1)) fresh_connection 0 sample_batch =
     ((\<lparr>committed = Some (UserTable crypto_table), working = Some (UserTable crypto_table)\<rparr>, 1),
      Inl PyodbcError)"
    by (simp add: insert_eval)
  have fault: "\<exists>i<length sample_batch. db_fault (failing_at (InsertRow 1)) (InsertRow i) \<noteq> None"
    by (intro exI[of _ 1]) (simp add: failing_at_def sample_batch_def)
  have fresh: "working fresh_connection = committed fresh_connection"
    by (simp add: fresh_connection_def)
  have cls: "\<forall>op e. db_fault (failing_at (InsertRow 1)) op = Some e \<longrightarrow> is_pyodbc_Error e"
    by (simp add: failing_at_def is_pyodbc_Error_def)
  have rb: "db_fault (failing_at (InsertRow 1)) Rollback = None"
    by (simp add: failing_at_def)
  have len: "1 < length sample_batch" by (simp add: sample_batch_def)
  have at: "db_fault (failing_at (InsertRow 1)) (InsertRow 1) = Some PyodbcError"
    by (simp add: failing_at_def)
  from insert_crypto_data_all_or_nothing[OF run] fault fresh cls rb run len at
  show ?thesis by blast
qed

subsection \<open>One timestamp for the batch\<close>

text \<open>
  Claim C7. On a connection opened on the database \<open>db\<close>, with \<open>k\<close> calls of
  \<^verbatim>\<open>datetime.now()\<close> made before, \<open>insert_crypto_data\<close> makes at most one call of
  \<^verbatim>\<open>datetime.now()\<close>, and exactly one whenever it returns a count. Every row it
  adds, to the transaction and to the stored table, carries the value of that one call,
  \<open>clock E k\<close>; when it returns a count it has stored one row for each dictionary of the
  batch.
\<close>

theorem insert_crypto_data_one_timestamp:
  assumes "insert_crypto_data E \<lparr>committed = db, working = db\<rparr> k crypto_data = ((c', k'), r)"
  shows "(k' = k \<or> k' = Suc k) \<and> (\<forall>n. r = Inr n \<longrightarrow> k' = Suc k) \<and>
     (\<exists>new. table_rows (working c') = table_rows db @ new \<and>
            (\<forall>row\<in>set new. scraped_at row = clock E k)) \<and>
     (\<exists>new. table_rows (committed c') = table_rows db @ new \<and>
            (\<forall>row\<in>set new. scraped_at row = clock E k) \<and>
            (\<forall>n. r = Inr n \<longrightarrow> length new = length crypto_data))"
proof -
  let ?c = "\<lparr>committed = db, working = db\<rparr>"
  from insert_crypto_data_cases[OF assms]
  show ?thesis
  proof
    assume "\<exists>e. db_fault E Cursor = Some e \<and> c' = ?c \<and> k' = k \<and> r = Inl e"
    then show ?thesis by auto
  next
    assume "db_fault E Cursor = None \<and>
      (\<exists>c1 r1. insert_try E ?c k crypto_data = ((c1, k'), r1) \<and>
         (c' = c1 \<or> c' = c1\<lparr>working := committed c1\<rparr> \<and> (\<exists>e. r1 = Inl e)) \<and>
         (\<forall>n. r = Inr n \<longrightarrow> r1 = Inr n \<and> c' = c1) \<and>
         (\<forall>e. r1 = Inl e \<longrightarrow> (\<exists>e'. r = Inl e')))"
    then obtain c1 r1 where it: "insert_try E ?c k crypto_data = ((c1, k'), r1)"
      and c': "c' = c1 \<or> c' = c1\<lparr>working := committed c1\<rparr> \<and> (\<exists>e. r1 = Inl e)"
      and r: "\<forall>n. r = Inr n \<longrightarrow> r1 = Inr n \<and> c' = c1" by blast
    from insert_try_result[OF it] obtain new where
      k: "k' = k \<or> k' = Suc k" and
      new: "table_rows (working c1) = table_rows db @ new"
           "\<forall>row\<in>set new. scraped_at row = clock E k"
           "\<forall>n. r1 = Inr n \<longrightarrow> n = int (length crypto_data) \<and> length new = length crypto_data" and
      ok: "\<forall>n. r1 = Inr n \<longrightarrow> k' = Suc k \<and> committed c1 = working c1" and
      bad: "\<forall>e. r1 = Inl e \<longrightarrow> table_rows (committed c1) = table_rows db"
      by auto
    have com: "\<exists>new. table_rows (committed c1) = table_rows db @ new \<and>
            (\<forall>row\<in>set new. scraped_at row = clock E k) \<and>
            (\<forall>n. r1 = Inr n \<longrightarrow> length new = length crypto_data)"
    proof (cases r1)
      case (Inl e)
      with bad show ?thesis by (intro exI[of _ "[]"]) simp
    next
      case (Inr n)
      with ok new show ?thesis by (intro exI[of _ new]) simp
    qed
    have wrk: "\<exists>new. table_rows (working c') = table_rows db @ new \<and>
            (\<forall>row\<in>set new. scraped_at row = clock E k)"
      using c' new com by (metis connection.select_convs(2) connection.surjective connection.update_convs(2))
    have com': "committed c' = committed c1" using c' by auto
    show ?thesis using k r ok com wrk com' by auto
  qed
qed

theorem insert_crypto_data_one_timestamp_witness:
  "snd (insert_crypto_data sample_env \<lparr>committed = None, working = None\<rparr> 0 sample_batch) = Inr 2 \<and>
   snd (fst (insert_crypto_data sample_env \<lparr>committed = None, working = None\<rparr> 0 sample_batch)) = Suc 0 \<and>
   map scraped_at (table_rows (committed (fst (fst
     (insert_crypto_data sample_env \<lparr>committed = None, working = None\<rparr> 0 sample_batch))))) =
     [clock sample_env 0, clock sample_env 0]"
proof -
  have ok: "snd (insert_crypto_data sample_env \<lparr>committed = None, working = None\<rparr> 0 sample_batch) = Inr 2"
    by (simp add: insert_eval)
  have rows': "map scraped_at (table_rows (committed (fst (fst
     (insert_crypto_data sample_env \<lparr>committed = None, working = None\<rparr> 0 sample_batch))))) =
     [clock sample_env 0, clock sample_env 0]"
    by (simp add: insert_eval table_rows_def crypto_table_def)
  have run: "insert_crypto_data sample_env \<lparr>committed = None, working = None\<rparr> 0 sample_batch =
     ((fst (fst (insert_crypto_data sample_env \<lparr>committed = None, working = None\<rparr> 0 sample_batch)),
       snd (fst (insert_crypto_data sample_env \<lparr>committed = None, working = None\<rparr> 0 sample_batch))),
      snd (insert_crypto_data sample_env \<lparr>committed = None, working = None\<rparr> 0 sample_batch))"
    by simp
  from insert_crypto_data_one_timestamp[OF run] ok rows' show ?thesis by blast
qed

subsection \<open>The count returned\<close>

text \<open>
  Claim C9. When \<open>insert_crypto_data\<close> returns a count, for any batch, connection and
  behaviour of the driver, the count is the length of the batch, and the stored table has
  grown by that many rows over the rows the connection saw. No value reported by the
  database enters the count: it is \<^verbatim>\<open>len(rows_to_insert)\<close>.
\<close>

theorem insert_crypto_data_count:
  assumes "insert_crypto_data E c k crypto_data = ((c', k'), Inr n)"
  shows "n = int (length crypto_data) \<and>
         length (table_rows (committed c')) = length (table_rows (working c)) + length crypto_data"
proof -
  from insert_crypto_data_cases[OF assms]
  obtain c1 where it: "insert_try E c k crypto_data = ((c1, k'), Inr n)" and c': "c' = c1"
    by auto
  from insert_try_result[OF it] show ?thesis using c' by auto
qed

theorem insert_crypto_data_count_witness:
  "snd (insert_crypto_data sample_env fresh_connection 0 sample_batch) = Inr 2 \<and>
   2 = int (length sample_batch) \<and>
   length (table_rows (committed (fst (fst
     (insert_crypto_data sample_env fresh_connection 0 sample_batch))))) =
     length (table_rows (working fresh_connection)) + length sample_batch"
proof -
  have ok: "snd (insert_crypto_data sample_env fresh_connection 0 sample_batch) = Inr 2"
    by (simp add: insert_eval)
  have run: "insert_crypto_data sample_env fresh_connection 0 sample_batch =
     ((fst (fst (insert_crypto_data sample_env fresh_connection 0 sample_batch)),
       snd (fst (insert_crypto_data sample_env fresh_connection 0 sample_batch))), Inr 2)"
    using ok by (metis prod.collapse)
  from insert_crypto_data_count[OF run] ok show ?thesis by blast
qed

subsection \<open>The rank column\<close>

text \<open>
  Claim C6, evaluated on a batch whose second dictionary has the rank text U+00B2
  (superscript two). \<^verbatim>\<open>isdigit()\<close> is true of it and \<^verbatim>\<open>int\<close> rejects it: the
  \<^verbatim>\<open>ValueError\<close> leaves \<open>insert_crypto_data\<close>, no row of the batch is stored, and
  \<open>save_to_sql_server\<close> answers \<open>False\<close>. The rank text U+2014 (em dash) of the claim's
  example is stored as a null rank.
\<close>

theorem insert_crypto_data_rank_superscript:
  "insert_crypto_data sample_env fresh_connection 0
     [sample_crypto (str ''1'') ''Bitcoin'', sample_crypto [178] ''Ethereum''] =
     ((\<lparr>committed = Some (UserTable crypto_table), working = Some (UserTable crypto_table)\<rparr>, 1),
      Inl ValueError) \<and>
   save_to_sql_server sample_env None 0
     [sample_crypto (str ''1'') ''Bitcoin'', sample_crypto [178] ''Ethereum''] =
     (Some (UserTable crypto_table), Inr False) \<and>
   map rank (table_rows (committed (fst (fst
     (insert_crypto_data sample_env fresh_connection 0 [sample_crypto [8212] ''Bitcoin''])))))
     = [None]"
  by (simp add: insert_eval save_to_sql_server_def get_sql_connection_def is_Exception_def
        table_rows_def crypto_table_def)

section \<open>The schema\<close>

text \<open>
  Claim C8. From any state of the connection and whatever the driver does,
  \<open>create_crypto_table\<close> called again on the state the first call left gives the outcome
  of the first call and leaves that state as it is: no second table, no further index.
  When a user table of the name exists and the driver does not fail, the call changes
  nothing and raises nothing; when the name is free, it creates the table, whose three
  indexes have different names and are on \<open>name\<close>, \<open>rank\<close> and \<open>scraped_at\<close>.
\<close>

theorem create_crypto_table_idempotent:
  "create_crypto_table E (fst (create_crypto_table E c)) = create_crypto_table E c \<and>
   (db_fault E CreateTable = None \<and> (\<exists>t. working c = Some (UserTable t)) \<longrightarrow>
      create_crypto_table E c = (c, Inr ())) \<and>
   (db_fault E CreateTable = None \<and> working c = None \<longrightarrow>
      create_crypto_table E c = (c\<lparr>working := Some (UserTable crypto_table)\<rparr>, Inr ())) \<and>
   distinct (map fst (indexes crypto_table)) \<and>
   map snd (indexes crypto_table) = [''name'', ''rank'', ''scraped_at'']"
  by (auto simp: create_crypto_table_def crypto_table_def split: option.splits db_object.splits)

theorem create_crypto_table_idempotent_witness:
  "db_fault sample_env CreateTable = None \<and>
   working \<lparr>committed = None, working = recent_db\<rparr> = recent_db \<and>
   create_crypto_table sample_env \<lparr>committed = None, working = recent_db\<rparr> =
     (\<lparr>committed = None, working = recent_db\<rparr>, Inr ()) \<and>
   create_crypto_table sample_env
       (fst (create_crypto_table sample_env \<lparr>committed = None, working = recent_db\<rparr>)) =
     (\<lparr>committed = None, working = recent_db\<rparr>, Inr ())"
proof -
  have f: "db_fault sample_env CreateTable = None" by (simp add: sample_env_def)
  have w: "\<exists>t. working \<lparr>committed = None, working = recent_db\<rparr> = Some (UserTable t)"
    by (simp add: recent_db_def)
  from create_crypto_table_idempotent
         [of sample_env "\<lparr>committed = None, working = recent_db\<rparr>"] f w
  show ?thesis by simp
qed

section \<open>Retention pruning\<close>

lemma get_sql_connection_exn:
  assumes "\<forall>op e. db_fault E op = Some e \<longrightarrow> is_Exception e"
    and "\<And>c c' e. body c = (c', Inl e) \<Longrightarrow> is_Exception e"
    and "get_sql_connection E db body = (db', Inl e)"
  shows "is_Exception e"
  using assms
  by (auto simp: get_sql_connection_def split: option.splits prod.splits)

lemma delete_body_exn:
  assumes "\<forall>op e. db_fault E op = Some e \<longrightarrow> is_Exception e"
    and "delete_body E days c = (c', Inl e)"
  shows "is_Exception e"
  using assms
  by (auto simp: delete_body_def execute_delete_def commit_def is_Exception_def
           split: option.splits prod.splits sum.splits db_object.splits)

lemma filter_none: "\<forall>x\<in>set xs. \<not> P x \<Longrightarrow> filter P xs = [] \<and> filter (\<lambda>x. \<not> P x) xs = xs"
  by (induction xs) auto

text \<open>
  Claim C10. Let the exceptions of the database driver be of class \<^verbatim>\<open>Exception\<close>, as
  the errors of pyodbc are (\<^verbatim>\<open>KeyboardInterrupt\<close>, which is not, passes
  \<^verbatim>\<open>except Exception\<close>). Then \<open>delete_old_data\<close> returns a number, for every database
  and every \<open>days\<close>; when connecting, the \<^verbatim>\<open>DELETE\<close> or the commit fails, it returns
  \<open>0\<close> and the database is as before. A run \<open>E'\<close> in which nothing fails, on a table
  without a row older than \<open>days\<close>, returns \<open>0\<close> as well and leaves the database as it
  is: the caller sees the same in both.
\<close>

theorem delete_old_data_fails_soft:
  assumes "\<forall>op e. db_fault E op = Some e \<longrightarrow> is_Exception e"
    and "\<forall>op. db_fault E' op = None"
    and "\<forall>row\<in>set (rows t). \<not> scraped_at row < dateadd_day (- days) (getdate E')"
  shows "(\<exists>n. snd (delete_old_data E db days) = Inr n) \<and>
         (db_fault E Connect \<noteq> None \<or> db_fault E Delete \<noteq> None \<or> db_fault E CommitDelete \<noteq> None
            \<longrightarrow> delete_old_data E db days = (db, Inr 0)) \<and>
         delete_old_data E' (Some (UserTable t)) days = (Some (UserTable t), Inr 0)"
proof -
  obtain db' r where g: "get_sql_connection E db (delete_body E days) = (db', r)" by force
  have 1: "\<exists>n. snd (delete_old_data E db days) = Inr n"
  proof (cases r)
    case (Inr n)
    with g show ?thesis by (simp add: delete_old_data_def)
  next
    case (Inl e)
    have "is_Exception e"
      using get_sql_connection_exn[OF assms(1) _ g[unfolded Inl]] delete_body_exn[OF assms(1)]
      by blast
    with g Inl show ?thesis by (simp add: delete_old_data_def)
  qed
  have 2: "delete_old_data E db days = (db, Inr 0)"
    if "db_fault E Connect \<noteq> None \<or> db_fault E Delete \<noteq> None \<or> db_fault E CommitDelete \<noteq> None"
    using that assms(1)
    by (auto simp: delete_old_data_def get_sql_connection_def delete_body_def execute_delete_def
                   commit_def is_Exception_def
             split: option.splits prod.splits sum.splits db_object.splits)
  have 3: "delete_old_data E' (Some (UserTable t)) days = (Some (UserTable t), Inr 0)"
    using assms(2) filter_none[OF assms(3)]
    by (simp add: delete_old_data_def get_sql_connection_def delete_body_def execute_delete_def
                  commit_def)
  from 1 2 3 show ?thesis by blast
qed

theorem delete_old_data_fails_soft_witness:
  "db_fault (failing_at Connect) Connect = Some PyodbcError \<and>
   is_Exception PyodbcError \<and>
   delete_old_data (failing_at Connect) recent_db 30 = (recent_db, Inr 0) \<and>
   delete_old_data sample_env recent_db 30 = (recent_db, Inr 0)"
proof -
  have exc: "\<forall>op e. db_fault (failing_at Connect) op = Some e \<longrightarrow> is_Exception e"
    by (simp add: failing_at_def is_Exception_def)
  have ok: "\<forall>op. db_fault sample_env op = None"
    by (simp add: sample_env_def)
  have fresh: "\<forall>row\<in>set (rows (crypto_table\<lparr>rows :=
       [\<lparr> rank = Some 1, name = str ''Bitcoin'', price = str ''$60,000'',
           one_hour_change = str ''+0.1%'', twenty_four_hour_change = str ''-1.2%'',
           seven_day_change = str ''+3.4%'', market_cap = str ''$1.2T'',
           volume_24h = str ''$30B'', circulating_supply = str ''19M BTC'',
           scraped_at = 1700000000 - 5 * 86400 \<rparr>]\<rparr>)).
       \<not> scraped_at row < dateadd_day (- 30) (getdate sample_env)"
    by (simp add: dateadd_day_def sample_env_def)
  have at: "db_fault (failing_at Connect) Connect = Some PyodbcError"
    by (simp add: failing_at_def)
  have cls: "is_Exception PyodbcError" by (simp add: is_Exception_def)
  from delete_old_data_fails_soft[OF exc ok fresh, of recent_db] at cls
  show ?thesis unfolding recent_db_def by simp
qed

section \<open>The record extractor\<close>

lemma field_Inr:
  "field U cols i = Inr v \<longleftrightarrow> i < length cols \<and> (\<exists>s. cols ! i = Td s \<and> v = strip U s)"
  by (auto simp: field_def split: cell.splits)

lemma crypto_info_fields:
  assumes "crypto_info U cols = Inr info"
  shows "\<exists>n p. cols ! 2 = Td n \<and> cols ! 3 = Td p \<and>
               info ''name'' = Some (strip U n) \<and> info ''price'' = Some (strip U p)"
proof -
  from assms obtain name' price' where
    "field U cols 2 = Inr name'" "field U cols 3 = Inr price'"
    "info ''name'' = Some name'" "info ''price'' = Some price'"
    unfolding crypto_info_def seq_Inr_iff by auto
  then show ?thesis by (auto simp: field_Inr)
qed

lemma parse_rows_sound:
  "parse_rows U trs acc lg = (Inr crypto_data, lg') \<Longrightarrow>
   \<exists>new. crypto_data = acc @ new \<and>
     (\<forall>info\<in>set new. \<exists>cols\<in>set trs. 10 \<le> length cols \<and> crypto_info U cols = Inr info)"
proof (induction trs arbitrary: acc lg)
  case Nil
  then show ?case by simp
next
  case (Cons cols trs)
  then show ?case
    by (fastforce split: if_splits sum.splits)
qed

lemma parse_rows_ok:
  assumes "\<forall>cols\<in>set trs. 10 \<le> length cols \<longrightarrow>
             (\<forall>e. crypto_info U cols = Inl e \<longrightarrow> e = IndexError \<or> e = AttributeError)"
  shows "parse_rows U trs acc lg =
     (Inr (acc @ concat (map (\<lambda>cols. if 10 \<le> length cols
              then (case crypto_info U cols of Inr info \<Rightarrow> [info] | Inl e \<Rightarrow> []) else []) trs)),
      lg @ concat (map (\<lambda>cols. if 10 \<le> length cols
              then (case crypto_info U cols of Inr info \<Rightarrow> []
                    | Inl e \<Rightarrow> [(WARNING, ''Error parsing row: {e}'', [ArgExn e])]) else []) trs))"
  using assms
proof (induction trs arbitrary: acc lg)
  case Nil
  then show ?case by simp
next
  case (Cons cols trs)
  then show ?case
    by (auto split: sum.splits)
qed

text \<open>The definitions that evaluate the extractor on a concrete page.\<close>

lemmas parse_eval = parse_crypto_data_def crypto_info_def field_def strip_def latin1_def
  sample_soup_def data_row_def str_def

subsection \<open>Name and price\<close>

text \<open>
  Claim C2 fails as stated: \<open>parse_crypto_data\<close> has no test of the name or of the price.
  On a page whose one data row has ten cells and more, with rank \<^verbatim>\<open>1\<close>, a name of two
  blanks and an empty price, it returns one record, with the empty string as its name and
  as its price.
\<close>

theorem parse_crypto_data_keeps_empty_name:
  "map (\<lambda>info. (info ''rank'', info ''name'', info ''price''))
     (case fst (parse_crypto_data latin1 (Some [[], data_row ''1'' ''  '' '''']) []) of
        Inr crypto_data \<Rightarrow> crypto_data
      | Inl e \<Rightarrow> []) =
   [(Some (str ''1''), Some [], Some [])]"
  by (simp add: parse_eval)

text \<open>
  Claim C2 as amended. Every record that \<open>parse_crypto_data\<close> returns comes from a row
  after the first that has at least ten cells, and its name and its price are the text of
  the third and of the fourth cell of that row, stripped; either may be the empty string.
  A row that lacks the cell of the name or of the price has fewer than ten cells and
  gives no record.
\<close>

theorem parse_crypto_data_name_price:
  assumes "parse_crypto_data U soup lg = (Inr crypto_data, lg')"
    and "info \<in> set crypto_data"
  shows "\<exists>trs cols n p. soup = Some trs \<and> cols \<in> set (drop 1 trs) \<and> 10 \<le> length cols \<and>
           cols ! 2 = Td n \<and> cols ! 3 = Td p \<and>
           info ''name'' = Some (strip U n) \<and> info ''price'' = Some (strip U p)"
proof (cases soup)
  case None
  with assms show ?thesis by (simp add: parse_crypto_data_def)
next
  case (Some trs)
  with assms(1) have "parse_rows U (drop 1 trs) []
      (lg @ [(INFO, ''Found {len(rows)-1} cryptocurrency rows (excluding header)'',
              [ArgInt (int (length trs) - 1)])]) = (Inr crypto_data, lg')"
    by (simp add: parse_crypto_data_def)
  from parse_rows_sound[OF this] assms(2)
  obtain cols where "cols \<in> set (drop 1 trs)" "10 \<le> length cols" "crypto_info U cols = Inr info"
    by auto
  with crypto_info_fields[OF this(3)] Some show ?thesis by blast
qed

theorem parse_crypto_data_name_price_witness:
  "parse_crypto_data latin1 sample_soup [] =
     (Inr (projr (fst (parse_crypto_data latin1 sample_soup []))),
      snd (parse_crypto_data latin1 sample_soup [])) \<and>
   hd (projr (fst (parse_crypto_data latin1 sample_soup [])))
     \<in> set (projr (fst (parse_crypto_data latin1 sample_soup []))) \<and>
   hd (projr (fst (parse_crypto_data latin1 sample_soup []))) ''name'' = Some (str ''Bitcoin'') \<and>
   (\<exists>trs cols n p. sample_soup = Some trs \<and> cols \<in> set (drop 1 trs) \<and> 10 \<le> length cols \<and>
      cols ! 2 = Td n \<and> cols ! 3 = Td p \<and>
      hd (projr (fst (parse_crypto_data latin1 sample_soup []))) ''name'' = Some (strip latin1 n) \<and>
      hd (projr (fst (parse_crypto_data latin1 sample_soup []))) ''price'' = Some (strip latin1 p))"
proof -
  have run: "parse_crypto_data latin1 sample_soup [] =
     (Inr (projr (fst (parse_crypto_data latin1 sample_soup []))),
      snd (parse_crypto_data latin1 sample_soup []))"
    by (simp add: parse_eval)
  have mem: "hd (projr (fst (parse_crypto_data latin1 sample_soup [])))
     \<in> set (projr (fst (parse_crypto_data latin1 sample_soup [])))"
    by (simp add: parse_eval)
  have nm: "hd (projr (fst (parse_crypto_data latin1 sample_soup []))) ''name'' = Some (str ''Bitcoin'')"
    by (simp add: parse_eval)
  from parse_crypto_data_name_price[OF run mem] run mem nm show ?thesis by blast
qed

subsection \<open>Rows that are passed over\<close>

text \<open>
  Claim C4 fails as stated in one point: the rows passed over are not counted. On a page
  whose one data row has nine cells, \<open>parse_crypto_data\<close> returns the empty list and
  writes one log record, the number of rows after the header; on the page with that row
  complete it writes the same record. Nothing it returns or logs is a count of the rows it
  passed over.
\<close>

theorem parse_crypto_data_skip_not_counted:
  "parse_crypto_data latin1 (Some [[], take 9 (data_row ''1'' ''Bitcoin'' ''$60,000'')]) [] =
     (Inr [], [(INFO, ''Found {len(rows)-1} cryptocurrency rows (excluding header)'', [ArgInt 1])]) \<and>
   snd (parse_crypto_data latin1 (Some [[], data_row ''1'' ''Bitcoin'' ''$60,000'']) []) =
     [(INFO, ''Found {len(rows)-1} cryptocurrency rows (excluding header)'', [ArgInt 1])]"
  by (simp add: parse_eval)

text \<open>
  Claim C4 as amended. On a page with the table, let every row of ten cells or more whose
  field access raises raise \<^verbatim>\<open>IndexError\<close> or \<^verbatim>\<open>AttributeError\<close>. Then
  \<open>parse_crypto_data\<close> does not raise. It returns, in the order of the page, the records
  of the rows after the first that have at least ten cells and whose field access does not
  raise: a row of fewer than ten cells and a row whose field access raises give no record.
  Its log is the number of rows after the first, then one warning for each row whose field
  access raised; a row of fewer than ten cells leaves no record in the log, and no count
  of the rows passed over is kept.
\<close>

theorem parse_crypto_data_skips:
  assumes "\<forall>cols\<in>set (drop 1 trs). 10 \<le> length cols \<longrightarrow>
             (\<forall>e. crypto_info U cols = Inl e \<longrightarrow> e = IndexError \<or> e = AttributeError)"
  shows "parse_crypto_data U (Some trs) lg =
     (Inr (concat (map (\<lambda>cols. if 10 \<le> length cols
              then (case crypto_info U cols of Inr info \<Rightarrow> [info] | Inl e \<Rightarrow> []) else [])
            (drop 1 trs))),
      lg @ [(INFO, ''Found {len(rows)-1} cryptocurrency rows (excluding header)'',
             [ArgInt (int (length trs) - 1)])]
         @ concat (map (\<lambda>cols. if 10 \<le> length cols
              then (case crypto_info U cols of Inr info \<Rightarrow> []
                    | Inl e \<Rightarrow> [(WARNING, ''Error parsing row: {e}'', [ArgExn e])]) else [])
            (drop 1 trs)))"
  using parse_rows_ok[OF assms] by (simp add: parse_crypto_data_def)

theorem parse_crypto_data_skips_witness:
  "map (\<lambda>info. info ''name'')
     (projr (fst (parse_crypto_data latin1
        (Some [[], data_row ''1'' ''Bitcoin'' ''$60,000'',
               take 9 (data_row ''2'' ''Ethereum'' ''$3,000''),
               (data_row ''3'' ''Tether'' ''$1.00'')[2 := Broken AttributeError]]) []))) =
     [Some (str ''Bitcoin'')] \<and>
   snd (parse_crypto_data latin1
        (Some [[], data_row ''1'' ''Bitcoin'' ''$60,000'',
               take 9 (data_row ''2'' ''Ethereum'' ''$3,000''),
               (data_row ''3'' ''Tether'' ''$1.00'')[2 := Broken AttributeError]]) []) =
     [(INFO, ''Found {len(rows)-1} cryptocurrency rows (excluding header)'', [ArgInt 3]),
      (WARNING, ''Error parsing row: {e}'', [ArgExn AttributeError])]"
proof -
  have h: "\<forall>cols\<in>set (drop 1 [[], data_row ''1'' ''Bitcoin'' ''$60,000'',
               take 9 (data_row ''2'' ''Ethereum'' ''$3,000''),
               (data_row ''3'' ''Tether'' ''$1.00'')[2 := Broken AttributeError]]).
         10 \<le> length cols \<longrightarrow>
           (\<forall>e. crypto_info latin1 cols = Inl e \<longrightarrow> e = IndexError \<or> e = AttributeError)"
    by (simp add: parse_eval)
  show ?thesis
    unfolding parse_crypto_data_skips[OF h]
    by (simp add: parse_eval)
qed

section \<open>The pipeline\<close>












end
